theory Spec2Isabelle
  imports Main
begin

section \<open>JavaScript values\<close>

text \<open>
  An optional property of an action payload (\<^verbatim>\<open>selectedAppId?: null | string\<close>) has three
  shapes at run time: the property is missing (\<^verbatim>\<open>undefined\<close>), it is \<^verbatim>\<open>null\<close>, or it holds a
  value. The reducer tells them apart only through the operators \<^verbatim>\<open>??\<close> and \<^verbatim>\<open>===\<close>.
\<close>

datatype 'a optional = Undefined | Null | Defined 'a

text \<open>\<^verbatim>\<open>a ?? b\<close>, where \<open>b\<close> is a value or \<^verbatim>\<open>undefined\<close>; the result is read as an option.\<close>

fun coalesce :: "'a optional \<Rightarrow> 'a option \<Rightarrow> 'a option" where
  "coalesce (Defined x) b = Some x"
| "coalesce Undefined b = b"
| "coalesce Null b = b"

text \<open>\<^verbatim>\<open>a ?? null\<close>, kept as a JavaScript value.\<close>

fun or_null :: "'a optional \<Rightarrow> 'a optional" where
  "or_null Undefined = Null"
| "or_null Null = Null"
| "or_null (Defined x) = Defined x"

text \<open>\<^verbatim>\<open>a ?? null\<close>, for a field of type \<^verbatim>\<open>null | string\<close>.\<close>

fun nullable :: "'a optional \<Rightarrow> 'a option" where
  "nullable (Defined x) = Some x"
| "nullable Undefined = None"
| "nullable Null = None"

text \<open>
  Truthiness of a \<^verbatim>\<open>null | string\<close>: \<^verbatim>\<open>null\<close> and the empty string are falsy, so
  \<^verbatim>\<open>!state.selectedAppId\<close> is \<open>\<not> truthy (selectedAppId state)\<close>.
\<close>

fun truthy :: "string option \<Rightarrow> bool" where
  "truthy None = False"
| "truthy (Some s) = (s \<noteq> [])"

text \<open>\<^verbatim>\<open>Array.prototype.findIndex\<close>; the result \<open>-1\<close> is \<open>None\<close>.\<close>

fun findIndex :: "('a \<Rightarrow> bool) \<Rightarrow> 'a list \<Rightarrow> nat option" where
  "findIndex P [] = None"
| "findIndex P (x # xs) = (if P x then Some 0 else map_option Suc (findIndex P xs))"

text \<open>\<^verbatim>\<open>Array.prototype.indexOf\<close> on an array of strings.\<close>

definition indexOf :: "'a list \<Rightarrow> 'a \<Rightarrow> nat option" where
  "indexOf xs x = findIndex (\<lambda>y. y = x) xs"

text \<open>\<^verbatim>\<open>xs.splice(idx, 1)\<close> for an index inside the array: the array without that element.\<close>

definition splice1 :: "nat \<Rightarrow> 'a list \<Rightarrow> 'a list" where
  "splice1 idx xs = take idx xs @ drop (Suc idx) xs"

section \<open>Entities\<close>

text \<open>
  Devices and clients are objects owned by other layers; the state holds references to
  them. A device is modelled by a snapshot of the properties the reducer and the selectors
  read, together with the identity of the object (\<open>oid\<close>): \<^verbatim>\<open>===\<close> on two devices is
  equality of the records, which for snapshots taken at the same moment holds exactly
  when the two references are the same object. \<open>connected\<close> is the value of
  \<^verbatim>\<open>device.connected.get()\<close>.
\<close>

record BaseDevice =
  oid :: nat
  serial :: string
  title :: string
  os :: string
  connected :: bool
  isConnected :: bool
  isArchived :: bool

record ClientQuery =
  app :: string
  query_os :: string
  query_device :: string
  device_id :: string

text \<open>\<open>client_connected\<close> is the value of \<^verbatim>\<open>client.connected.get()\<close>.\<close>

record Client =
  client_id :: string
  device :: BaseDevice
  query :: ClientQuery
  client_connected :: bool
  supportsPlugin :: "string \<Rightarrow> bool"

record UninitializedClient =
  uc_os :: string
  deviceName :: string
  appName :: string

text \<open>
  \<^verbatim>\<open>unknown\<close>: a deep link payload is opaque to the reducer; a string stands for a value
  that is neither \<^verbatim>\<open>undefined\<close> nor \<^verbatim>\<open>null\<close>.
\<close>

type_synonym unknown = "string optional"

text \<open>A static view is \<^verbatim>\<open>null\<close> or a component, named here by a string.\<close>

type_synonym StaticView = "string option"

record State =
  devices :: "BaseDevice list"
  selectedDevice :: "BaseDevice option"
  selectedPlugin :: "string option"
  selectedAppId :: "string option"
  userPreferredDevice :: "string option"
  userPreferredPlugin :: "string option"
  userPreferredApp :: "string option"
  enabledPlugins :: "string \<rightharpoonup> string list"
  enabledDevicePlugins :: "string set"
  clients :: "Client list"
  uninitializedClients :: "UninitializedClient list"
  deepLinkPayload :: unknown
  staticView :: StaticView
  selectedAppPluginListRevision :: nat
  flipperServer :: "nat option"

text \<open>
  The actions. \<^verbatim>\<open>SELECT_PLUGIN\<close> carries \<^verbatim>\<open>selectedPlugin\<close>, \<^verbatim>\<open>selectedAppId\<close>,
  \<^verbatim>\<open>deepLinkPayload\<close> and \<^verbatim>\<open>selectedDevice\<close> (its \<^verbatim>\<open>time\<close> is not read by the reducer).
  \<^verbatim>\<open>SELECT_DEVICE\<close> is typed with a device, but the reducer also accepts \<^verbatim>\<open>null\<close>.
  \<^verbatim>\<open>REGISTER_PLUGINS\<close> carries, for each plugin, whether it is a device plugin.
  \<open>OTHER\<close> is any action of another reducer.
\<close>

datatype Action =
    SET_FLIPPER_SERVER nat
  | SET_STATIC_VIEW StaticView unknown
  | RESET_SUPPORT_FORM_V2_STATE
  | SELECT_DEVICE "BaseDevice option"
  | REGISTER_DEVICE BaseDevice
  | SELECT_PLUGIN string "string optional" unknown "BaseDevice optional"
  | NEW_CLIENT Client
  | SELECT_CLIENT string
  | CLIENT_REMOVED string
  | START_CLIENT_SETUP UninitializedClient
  | REGISTER_PLUGINS "bool list"
  | SET_PLUGIN_ENABLED string string
  | SET_DEVICE_PLUGIN_ENABLED string
  | SET_PLUGIN_DISABLED string string
  | SET_DEVICE_PLUGIN_DISABLED string
  | APP_PLUGIN_LIST_CHANGED
  | OTHER string

text \<open>
  What the reducer throws: the \<^verbatim>\<open>Error\<close> of \<^verbatim>\<open>REGISTER_DEVICE\<close>, and the \<^verbatim>\<open>TypeError\<close> of the
  runtime where a value that is not a function is called.
\<close>

datatype Error = Error string | TypeError string

section \<open>The reducer\<close>

definition DEFAULT_PLUGIN :: string where
  "DEFAULT_PLUGIN = ''DeviceLogs''"

definition DEFAULT_DEVICE_BLACKLIST :: "string list" where
  "DEFAULT_DEVICE_BLACKLIST = [''MacOS'', ''Metro'', ''Windows'']"

definition INITAL_STATE :: State where
  "INITAL_STATE = \<lparr>
     devices = [],
     selectedDevice = None,
     selectedPlugin = Some DEFAULT_PLUGIN,
     selectedAppId = None,
     userPreferredDevice = None,
     userPreferredPlugin = None,
     userPreferredApp = None,
     enabledPlugins = Map.empty,
     enabledDevicePlugins =
       {''DeviceLogs'', ''CrashReporter'', ''MobileBuilds'', ''Hermesdebuggerrn'', ''React''},
     clients = [],
     uninitializedClients = [],
     deepLinkPayload = Null,
     staticView = Some ''WelcomeScreenStaticView'',
     selectedAppPluginListRevision = 0,
     flipperServer = None \<rparr>"

definition canBeDefaultDevice :: "BaseDevice \<Rightarrow> bool" where
  "canBeDefaultDevice dev \<longleftrightarrow> os dev \<notin> set DEFAULT_DEVICE_BLACKLIST"

text \<open>
  \<^verbatim>\<open>case 'REGISTER_DEVICE'\<close>. The array of devices after the registration, or the error
  thrown when the device found under the same serial is still connected.
\<close>

definition newDevices :: "State \<Rightarrow> BaseDevice \<Rightarrow> Error + BaseDevice list" where
  "newDevices state payload =
     (case findIndex (\<lambda>device. serial device = serial payload) (devices state) of
        Some existing \<Rightarrow>
          (let d = devices state ! existing in
           if connected d
           then Inl (Error (''Cannot register, '' @ [CHR 0x27] @ serial d @ [CHR 0x27]
                              @ '' is still connected''))
           else Inr ((devices state)[existing := payload]))
      | None \<Rightarrow> Inr (devices state @ [payload]))"

definition selectNewDevice :: "State \<Rightarrow> BaseDevice \<Rightarrow> bool" where
  "selectNewDevice state payload \<longleftrightarrow>
     selectedDevice state = None \<or>
     (case selectedDevice state of Some sd \<Rightarrow> \<not> isConnected sd | None \<Rightarrow> False) \<or>
     userPreferredDevice state = Some (title payload)"

text \<open>The app selected together with a newly selected device.\<close>

definition appOnDevice :: "State \<Rightarrow> BaseDevice \<Rightarrow> string option" where
  "appOnDevice state payload =
     (let selectedAppId =
            map_option client_id
              (find (\<lambda>c. device c = payload \<and> Some (app (query c)) = userPreferredApp state)
                 (clients state))
      in if \<not> truthy selectedAppId
         then map_option client_id (find (\<lambda>c. device c = payload) (clients state))
         else selectedAppId)"

definition register_device :: "State \<Rightarrow> BaseDevice \<Rightarrow> Error + State" where
  "register_device state payload =
     (case newDevices state payload of
        Inl e \<Rightarrow> Inl e
      | Inr ds \<Rightarrow>
          Inr (state\<lparr>
            devices := ds,
            selectedDevice :=
              (if selectNewDevice state payload then Some payload else selectedDevice state),
            selectedAppId :=
              (if selectNewDevice state payload then appOnDevice state payload
               else selectedAppId state) \<rparr>))"

text \<open>\<^verbatim>\<open>case 'SELECT_PLUGIN'\<close>.\<close>

definition select_plugin ::
  "State \<Rightarrow> string \<Rightarrow> string optional \<Rightarrow> unknown \<Rightarrow> BaseDevice optional \<Rightarrow> State" where
  "select_plugin state selPlugin selAppId deepLink selDevice =
     (let client = find (\<lambda>c. Defined (client_id c) = selAppId) (clients state) in
      case coalesce selDevice (map_option device client) of
        None \<Rightarrow> state
      | Some dev \<Rightarrow>
          state\<lparr>
            staticView := None,
            selectedDevice := Some dev,
            userPreferredDevice :=
              (if canBeDefaultDevice dev then Some (title dev) else userPreferredDevice state),
            selectedAppId := nullable selAppId,
            userPreferredApp :=
              (case find (\<lambda>c. Defined (client_id c) = selAppId) (clients state) of
                 Some c \<Rightarrow> Some (app (query c))
               | None \<Rightarrow> userPreferredApp state),
            selectedPlugin := Some selPlugin,
            userPreferredPlugin := Some selPlugin,
            deepLinkPayload := deepLink \<rparr>)"

text \<open>\<^verbatim>\<open>case 'NEW_CLIENT'\<close>.\<close>

definition selectNewClient :: "State \<Rightarrow> Client \<Rightarrow> bool" where
  "selectNewClient state payload \<longleftrightarrow>
     \<not> truthy (selectedAppId state) \<or>
     userPreferredApp state = Some (app (query payload)) \<or>
     (case find (\<lambda>c. Some (client_id c) = selectedAppId state) (clients state) of
        Some c \<Rightarrow> client_connected c = False
      | None \<Rightarrow> False)"

definition new_client :: "State \<Rightarrow> Client \<Rightarrow> State" where
  "new_client state payload =
     state\<lparr>
       selectedAppId :=
         (if selectNewClient state payload then Some (client_id payload)
          else selectedAppId state),
       selectedDevice :=
         (if selectNewClient state payload then Some (device payload)
          else selectedDevice state),
       clients :=
         filter (\<lambda>client. client_id client \<noteq> client_id payload) (clients state) @ [payload],
       uninitializedClients :=
         filter (\<lambda>c. deviceName c \<noteq> query_device (query payload) \<or>
                      appName c \<noteq> app (query payload))
           (uninitializedClients state) \<rparr>"

text \<open>\<^verbatim>\<open>case 'SELECT_CLIENT'\<close>.\<close>

definition select_client :: "State \<Rightarrow> string \<Rightarrow> State" where
  "select_client state payload =
     (case find (\<lambda>c. client_id c = payload) (clients state) of
        None \<Rightarrow> state
      | Some client \<Rightarrow>
          state\<lparr>
            selectedAppId := Some payload,
            selectedDevice := Some (device client),
            userPreferredDevice := Some (title (device client)),
            userPreferredApp := Some (app (query client)),
            selectedPlugin :=
              (if truthy (selectedPlugin state) \<and>
                  (case selectedPlugin state of Some p \<Rightarrow> supportsPlugin client p
                   | None \<Rightarrow> False)
               then selectedPlugin state
               else if truthy (userPreferredPlugin state) \<and>
                  (case userPreferredPlugin state of Some p \<Rightarrow> supportsPlugin client p
                   | None \<Rightarrow> False)
               then userPreferredPlugin state
               else None) \<rparr>)"

text \<open>\<^verbatim>\<open>case 'CLIENT_REMOVED'\<close>.\<close>

definition client_removed :: "State \<Rightarrow> string \<Rightarrow> State" where
  "client_removed state payload =
     state\<lparr>
       selectedAppId :=
         (if selectedAppId state = Some payload then None else selectedAppId state),
       clients := filter (\<lambda>client. client_id client \<noteq> payload) (clients state) \<rparr>"

text \<open>
  \<open>enabledPlugins\<close> is a plain object. Under a key it does not own, a read gives what
  every object inherits from \<^verbatim>\<open>Object.prototype\<close> when the key is one of the names below
  (a function, or the prototype itself under \<^verbatim>\<open>__proto__\<close>: truthy, and not an array), and
  \<^verbatim>\<open>undefined\<close> under any other key. The names are those of the JavaScript runtime.
\<close>

definition Object_prototype_keys :: "string list" where
  "Object_prototype_keys =
     [''constructor'', ''__defineGetter__'', ''__defineSetter__'', ''hasOwnProperty'',
      ''__lookupGetter__'', ''__lookupSetter__'', ''isPrototypeOf'', ''propertyIsEnumerable'',
      ''toString'', ''valueOf'', ''__proto__'', ''toLocaleString'']"

datatype property = NoProperty | Inherited | Plugins "string list"

text \<open>\<^verbatim>\<open>draft.enabledPlugins[selectedApp]\<close>.\<close>

definition getProperty :: "(string \<rightharpoonup> string list) \<Rightarrow> string \<Rightarrow> property" where
  "getProperty m selectedApp =
     (case m selectedApp of
        Some plugins \<Rightarrow> Plugins plugins
      | None \<Rightarrow> if selectedApp \<in> set Object_prototype_keys then Inherited else NoProperty)"

text \<open>
  \<^verbatim>\<open>case 'SET_PLUGIN_ENABLED'\<close> and \<^verbatim>\<open>case 'SET_PLUGIN_DISABLED'\<close>. Both first give the
  app an empty array when the read is falsy, which an array and an inherited value are
  not; then they call \<^verbatim>\<open>indexOf\<close> on what the read gives, which throws when that is not an
  array. What the recipe writes to the draft is what the next state holds.
\<close>

definition withPluginList :: "(string \<rightharpoonup> string list) \<Rightarrow> string \<Rightarrow> (string \<rightharpoonup> string list)" where
  "withPluginList m selectedApp =
     (case getProperty m selectedApp of
        NoProperty \<Rightarrow> m(selectedApp \<mapsto> [])
      | Inherited \<Rightarrow> m
      | Plugins _ \<Rightarrow> m)"

definition set_plugin_enabled :: "State \<Rightarrow> string \<Rightarrow> string \<Rightarrow> Error + State" where
  "set_plugin_enabled state pluginId selectedApp =
     (let draft = withPluginList (enabledPlugins state) selectedApp in
      case getProperty draft selectedApp of
        Plugins plugins \<Rightarrow>
          (case indexOf plugins pluginId of
             None \<Rightarrow> Inr (state\<lparr>enabledPlugins := draft(selectedApp \<mapsto> plugins @ [pluginId])\<rparr>)
           | Some idx \<Rightarrow> Inr (state\<lparr>enabledPlugins := draft\<rparr>))
      | Inherited \<Rightarrow> Inl (TypeError ''plugins.indexOf is not a function'')
      | NoProperty \<Rightarrow> Inl (TypeError ''Cannot read properties of undefined''))"

definition set_plugin_disabled :: "State \<Rightarrow> string \<Rightarrow> string \<Rightarrow> Error + State" where
  "set_plugin_disabled state pluginId selectedApp =
     (let draft = withPluginList (enabledPlugins state) selectedApp in
      case getProperty draft selectedApp of
        Plugins plugins \<Rightarrow>
          (case indexOf plugins pluginId of
             Some idx \<Rightarrow>
               Inr (state\<lparr>enabledPlugins := draft(selectedApp \<mapsto> splice1 idx plugins)\<rparr>)
           | None \<Rightarrow> Inr (state\<lparr>enabledPlugins := draft\<rparr>))
      | Inherited \<Rightarrow> Inl (TypeError ''plugins.indexOf is not a function'')
      | NoProperty \<Rightarrow> Inl (TypeError ''Cannot read properties of undefined''))"

text \<open>
  The reducer. \<^verbatim>\<open>REGISTER_PLUGINS\<close> loads device plugins into the device objects and
  returns the state it was given; the plugins of a device are not part of the snapshot.
  What the cases write to the console and to the performance marks is not part of the
  state either and is left out.
\<close>

fun reducer :: "State \<Rightarrow> Action \<Rightarrow> Error + State" where
  "reducer state (SET_FLIPPER_SERVER payload) = Inr (state\<lparr>flipperServer := Some payload\<rparr>)"
| "reducer state (SET_STATIC_VIEW payload deepLink) =
     Inr (state\<lparr>staticView := payload, deepLinkPayload := or_null deepLink\<rparr>)"
| "reducer state RESET_SUPPORT_FORM_V2_STATE = Inr (state\<lparr>staticView := None\<rparr>)"
| "reducer state (SELECT_DEVICE payload) =
     Inr (state\<lparr>
       staticView := None,
       selectedDevice := payload,
       selectedAppId := None,
       userPreferredDevice :=
         (case payload of Some d \<Rightarrow> Some (title d) | None \<Rightarrow> userPreferredDevice state) \<rparr>)"
| "reducer state (REGISTER_DEVICE payload) = register_device state payload"
| "reducer state (SELECT_PLUGIN selPlugin selAppId deepLink selDevice) =
     Inr (select_plugin state selPlugin selAppId deepLink selDevice)"
| "reducer state (NEW_CLIENT payload) = Inr (new_client state payload)"
| "reducer state (SELECT_CLIENT payload) = Inr (select_client state payload)"
| "reducer state (CLIENT_REMOVED payload) = Inr (client_removed state payload)"
| "reducer state (START_CLIENT_SETUP payload) =
     Inr (state\<lparr>uninitializedClients :=
       filter (\<lambda>existing. existing \<noteq> payload) (uninitializedClients state) @ [payload]\<rparr>)"
| "reducer state (REGISTER_PLUGINS plugins) = Inr state"
| "reducer state (SET_PLUGIN_ENABLED pluginId selectedApp) =
     set_plugin_enabled state pluginId selectedApp"
| "reducer state (SET_DEVICE_PLUGIN_ENABLED pluginId) =
     Inr (state\<lparr>enabledDevicePlugins := insert pluginId (enabledDevicePlugins state)\<rparr>)"
| "reducer state (SET_PLUGIN_DISABLED pluginId selectedApp) =
     set_plugin_disabled state pluginId selectedApp"
| "reducer state (SET_DEVICE_PLUGIN_DISABLED pluginId) =
     Inr (state\<lparr>enabledDevicePlugins := enabledDevicePlugins state - {pluginId}\<rparr>)"
| "reducer state APP_PLUGIN_LIST_CHANGED =
     Inr (state\<lparr>selectedAppPluginListRevision := Suc (selectedAppPluginListRevision state)\<rparr>)"
| "reducer state (OTHER t) = Inr state"

text \<open>
  The states of the store: it starts in \<open>INITAL_STATE\<close>, and an action whose reduction
  returns gives the next state. A reduction that throws gives no state, and the store
  keeps the one it had.
\<close>

inductive reachable :: "State \<Rightarrow> bool" where
  initial: "reachable INITAL_STATE"
| step: "reachable s \<Longrightarrow> reducer s a = Inr s' \<Longrightarrow> reachable s'"

text \<open>
  A \<^verbatim>\<open>SELECT_PLUGIN\<close> names a known app when its \<^verbatim>\<open>selectedAppId\<close> is missing, \<^verbatim>\<open>null\<close> or
  the id of a client of the state; every other action does. \<open>reachable_known\<close> are the
  states the store reaches through such actions only.
\<close>

fun known_app :: "State \<Rightarrow> Action \<Rightarrow> bool" where
  "known_app s (SELECT_PLUGIN selPlugin (Defined a) deepLink selDevice) =
     (\<exists>c\<in>set (clients s). client_id c = a)"
| "known_app s _ = True"

inductive reachable_known :: "State \<Rightarrow> bool" where
  initial_known: "reachable_known INITAL_STATE"
| step_known:
    "reachable_known s \<Longrightarrow> known_app s a \<Longrightarrow> reducer s a = Inr s' \<Longrightarrow> reachable_known s'"

section \<open>Selectors\<close>

definition getActiveClient :: "State \<Rightarrow> Client option" where
  "getActiveClient state = find (\<lambda>c. Some (client_id c) = selectedAppId state) (clients state)"

definition getMetroDevice :: "State \<Rightarrow> BaseDevice option" where
  "getMetroDevice state =
     find (\<lambda>device. os device = ''Metro'' \<and> \<not> isArchived device) (devices state)"

definition getActiveDevice :: "State \<Rightarrow> BaseDevice option" where
  "getActiveDevice state =
     (if selectedDevice state \<noteq> getMetroDevice state then selectedDevice state
      else case getActiveClient state of
             Some client \<Rightarrow> Some (device client)
           | None \<Rightarrow> selectedDevice state)"

section \<open>Example entities\<close>

text \<open>Concrete devices, clients and states at which the theorems below are instantiated.\<close>

definition phone :: BaseDevice where
  "phone = \<lparr> oid = 1, serial = ''emu1'', title = ''Pixel'', os = ''Android'',
     connected = True, isConnected = True, isArchived = False \<rparr>"

definition metro :: BaseDevice where
  "metro = \<lparr> oid = 2, serial = ''metro1'', title = ''React Native'', os = ''Metro'',
     connected = True, isConnected = True, isArchived = False \<rparr>"

definition sample :: Client where
  "sample = \<lparr> client_id = ''Sample#emu1'', device = phone,
     query = \<lparr> app = ''Sample'', query_os = ''Android'', query_device = ''Pixel'',
               device_id = ''emu1'' \<rparr>,
     client_connected = True, supportsPlugin = (\<lambda>p. p = ''Layout'') \<rparr>"

definition phone_off :: BaseDevice where
  "phone_off = phone\<lparr> oid := 3, connected := False, isConnected := False \<rparr>"







section \<open>Arrays\<close>

lemma findIndex_Some:
  "findIndex P xs = Some i \<Longrightarrow> i < length xs \<and> P (xs ! i) \<and> (\<forall>j<i. \<not> P (xs ! j))"
proof (induction xs arbitrary: i)
  case Nil
  then show ?case by simp
next
  case (Cons x xs)
  show ?case
  proof (cases "P x")
    case True
    with Cons.prems show ?thesis by simp
  next
    case False
    with Cons.prems obtain k where k: "findIndex P xs = Some k" "i = Suc k"
      by auto
    from Cons.IH [OF k(1)] False k(2) show ?thesis
      by (auto simp: less_Suc_eq_0_disj)
  qed
qed

lemma findIndex_None: "findIndex P xs = None \<longleftrightarrow> (\<forall>x\<in>set xs. \<not> P x)"
  by (induction xs) auto

lemma find_findIndex: "find P xs = map_option (\<lambda>i. xs ! i) (findIndex P xs)"
  by (induction xs) (auto simp: option.map_comp comp_def)

section \<open>Uniqueness of clients and devices\<close>

text \<open>
  A registration leaves the serials of the array as they are (a replacement, at the index
  of the device with the payload's serial) or adds a serial the array did not hold.
\<close>

lemma newDevices_serials:
  assumes "newDevices s p = Inr ds"
  shows "map serial ds = map serial (devices s) \<or>
         (serial p \<notin> set (map serial (devices s)) \<and>
          map serial ds = map serial (devices s) @ [serial p])"
proof (cases "findIndex (\<lambda>d. serial d = serial p) (devices s)")
  case None
  then have "serial p \<notin> set (map serial (devices s))"
    by (auto simp: findIndex_None)
  with None assms show ?thesis by (auto simp: newDevices_def)
next
  case (Some i)
  from findIndex_Some [OF Some]
  have i: "i < length (devices s)" "serial (devices s ! i) = serial p"
    by auto
  from Some assms have "ds = (devices s)[i := p]"
    by (auto simp: newDevices_def Let_def split: if_splits)
  with i have "map serial ds = map serial (devices s)"
    by (simp add: map_update list_update_same_conv)
  then show ?thesis ..
qed

lemma newDevices_distinct:
  "newDevices s p = Inr ds \<Longrightarrow> distinct (map serial (devices s)) \<Longrightarrow> distinct (map serial ds)"
  using newDevices_serials [of s p ds] by auto

lemma reducer_devices:
  "reducer s a = Inr s' \<Longrightarrow> distinct (map serial (devices s)) \<Longrightarrow>
   distinct (map serial (devices s'))"
  by (cases a)
     (auto simp: register_device_def select_plugin_def new_client_def select_client_def
        client_removed_def set_plugin_enabled_def set_plugin_disabled_def Let_def
        dest: newDevices_distinct split: sum.splits option.splits property.splits)

lemma reducer_clients:
  "reducer s a = Inr s' \<Longrightarrow> distinct (map client_id (clients s)) \<Longrightarrow>
   distinct (map client_id (clients s'))"
  by (cases a)
     (auto simp: register_device_def select_plugin_def new_client_def select_client_def
        client_removed_def set_plugin_enabled_def set_plugin_disabled_def Let_def
        distinct_map_filter split: sum.splits option.splits property.splits)

lemma reachable_sample_twice: "reachable (new_client (new_client INITAL_STATE sample) sample)"
proof -
  have "reachable (new_client INITAL_STATE sample)"
    using reachable.step [OF reachable.initial, of "NEW_CLIENT sample"] by simp
  from reachable.step [OF this, of "NEW_CLIENT sample"] show ?thesis by simp
qed

text \<open>
  C1. In every state the store reaches from the initial state, whatever the actions, no
  two clients have the same id and no two devices have the same serial.
\<close>

theorem unique_clients_and_devices:
  "reachable s \<Longrightarrow>
   distinct (map client_id (clients s)) \<and> distinct (map serial (devices s))"
proof (induction rule: reachable.induct)
  case initial
  show ?case by (simp add: INITAL_STATE_def)
next
  case (step s a s')
  then show ?case by (blast intro: reducer_devices reducer_clients)
qed

text \<open>The same client connecting twice is held once.\<close>

theorem unique_clients_and_devices_witness:
  "reachable (new_client (new_client INITAL_STATE sample) sample) \<and>
   map client_id (clients (new_client (new_client INITAL_STATE sample) sample))
     = [''Sample#emu1''] \<and>
   distinct (map client_id (clients (new_client (new_client INITAL_STATE sample) sample))) \<and>
   distinct (map serial (devices (new_client (new_client INITAL_STATE sample) sample)))"
  using unique_clients_and_devices [OF reachable_sample_twice] reachable_sample_twice
  by (simp add: new_client_def INITAL_STATE_def sample_def)

section \<open>Registering a device\<close>

lemma newDevices_found:
  assumes "find (\<lambda>x. serial x = serial p) (devices s) = Some d"
  shows "\<exists>i. i < length (devices s) \<and> devices s ! i = d \<and>
    newDevices s p =
      (if connected d
       then Inl (Error (''Cannot register, '' @ [CHR 0x27] @ serial d @ [CHR 0x27]
                          @ '' is still connected''))
       else Inr ((devices s)[i := p]))"
proof -
  from assms obtain i where i: "findIndex (\<lambda>x. serial x = serial p) (devices s) = Some i"
    and d: "devices s ! i = d"
    by (auto simp: find_findIndex)
  from findIndex_Some [OF i] have "i < length (devices s)" by simp
  with i d show ?thesis by (auto simp: newDevices_def)
qed

lemma newDevices_fresh:
  "\<forall>d\<in>set (devices s). serial d \<noteq> serial p \<Longrightarrow> newDevices s p = Inr (devices s @ [p])"
  by (simp add: newDevices_def findIndex_None [THEN iffD2])

text \<open>In a state whose serials are unique, the device found is the device with that serial.\<close>

lemma find_unique_serial:
  "distinct (map serial ds) \<Longrightarrow> d \<in> set ds \<Longrightarrow> serial d = sn \<Longrightarrow>
   find (\<lambda>x. serial x = sn) ds = Some d"
  by (induction ds) (auto simp: image_iff)

text \<open>
  C2. \<^verbatim>\<open>REGISTER_DEVICE\<close>: when the device of \<open>devices\<close> with the payload's serial (the first
  one, which \<^verbatim>\<open>findIndex\<close> returns) is connected, the reducer throws and there is no next
  state; when it is not connected, the payload takes its place, at its index; when no
  device has the payload's serial, the payload is appended. Where the serials of \<open>devices\<close>
  are unique, as in every state the store reaches, the device found is the one device with
  the payload's serial.
\<close>

theorem register_device_existing_or_new:
  "(\<forall>d. find (\<lambda>x. serial x = serial p) (devices s) = Some d \<and> connected d \<longrightarrow>
      reducer s (REGISTER_DEVICE p) =
        Inl (Error (''Cannot register, '' @ [CHR 0x27] @ serial d @ [CHR 0x27]
                      @ '' is still connected''))) \<and>
   (\<forall>d. find (\<lambda>x. serial x = serial p) (devices s) = Some d \<and> \<not> connected d \<longrightarrow>
      (\<exists>i s'. i < length (devices s) \<and> devices s ! i = d \<and>
         reducer s (REGISTER_DEVICE p) = Inr s' \<and> devices s' = (devices s)[i := p])) \<and>
   ((\<forall>d\<in>set (devices s). serial d \<noteq> serial p) \<longrightarrow>
      (\<exists>s'. reducer s (REGISTER_DEVICE p) = Inr s' \<and> devices s' = devices s @ [p])) \<and>
   (distinct (map serial (devices s)) \<longrightarrow>
      (\<forall>d\<in>set (devices s). serial d = serial p \<longrightarrow>
         find (\<lambda>x. serial x = serial p) (devices s) = Some d))"
proof (intro conjI allI impI ballI)
  fix d
  assume "find (\<lambda>x. serial x = serial p) (devices s) = Some d \<and> connected d"
  with newDevices_found [of p s d]
  show "reducer s (REGISTER_DEVICE p) =
        Inl (Error (''Cannot register, '' @ [CHR 0x27] @ serial d @ [CHR 0x27]
                      @ '' is still connected''))"
    by (auto simp: register_device_def)
next
  fix d
  assume "find (\<lambda>x. serial x = serial p) (devices s) = Some d \<and> \<not> connected d"
  with newDevices_found [of p s d]
  show "\<exists>i s'. i < length (devices s) \<and> devices s ! i = d \<and>
         reducer s (REGISTER_DEVICE p) = Inr s' \<and> devices s' = (devices s)[i := p]"
    by (auto simp: register_device_def)
next
  assume "\<forall>d\<in>set (devices s). serial d \<noteq> serial p"
  from newDevices_fresh [OF this]
  show "\<exists>s'. reducer s (REGISTER_DEVICE p) = Inr s' \<and> devices s' = devices s @ [p]"
    by (simp add: register_device_def)
next
  fix d
  assume "distinct (map serial (devices s))" "d \<in> set (devices s)" "serial d = serial p"
  then show "find (\<lambda>x. serial x = serial p) (devices s) = Some d"
    by (rule find_unique_serial)
qed

text \<open>A connected phone, a disconnected phone at index 1, and no phone at all.\<close>

theorem register_device_existing_or_new_witness:
  "reducer (INITAL_STATE\<lparr>devices := [metro, phone]\<rparr>) (REGISTER_DEVICE phone) =
      Inl (Error (''Cannot register, '' @ [CHR 0x27] @ ''emu1'' @ [CHR 0x27]
                    @ '' is still connected'')) \<and>
   reducer (INITAL_STATE\<lparr>devices := [metro, phone_off]\<rparr>) (REGISTER_DEVICE phone) =
      Inr (INITAL_STATE\<lparr>devices := [metro, phone], selectedDevice := Some phone\<rparr>) \<and>
   reducer (INITAL_STATE\<lparr>devices := [metro]\<rparr>) (REGISTER_DEVICE phone) =
      Inr (INITAL_STATE\<lparr>devices := [metro, phone], selectedDevice := Some phone\<rparr>)"
  using register_device_existing_or_new [of phone "INITAL_STATE\<lparr>devices := [metro, phone]\<rparr>"]
    register_device_existing_or_new [of phone "INITAL_STATE\<lparr>devices := [metro, phone_off]\<rparr>"]
    register_device_existing_or_new [of phone "INITAL_STATE\<lparr>devices := [metro]\<rparr>"]
  by (simp add: phone_def metro_def phone_off_def INITAL_STATE_def register_device_def
        newDevices_def selectNewDevice_def appOnDevice_def)

text \<open>
  The selection after a \<^verbatim>\<open>REGISTER_DEVICE\<close> that does not throw, as the code computes it.
\<close>

lemma register_device_selects:
  assumes "reducer s (REGISTER_DEVICE p) = Inr s'"
  shows "if selectedDevice s = None \<or>
            (\<exists>sd. selectedDevice s = Some sd \<and> \<not> isConnected sd) \<or>
            userPreferredDevice s = Some (title p)
         then selectedDevice s' = Some p \<and>
              selectedAppId s' =
                (case find (\<lambda>c. device c = p \<and> Some (app (query c)) = userPreferredApp s)
                        (clients s) of
                   Some c \<Rightarrow>
                     if client_id c \<noteq> [] then Some (client_id c)
                     else map_option client_id (find (\<lambda>c. device c = p) (clients s))
                 | None \<Rightarrow> map_option client_id (find (\<lambda>c. device c = p) (clients s)))
         else selectedDevice s' = selectedDevice s \<and> selectedAppId s' = selectedAppId s"
proof -
  from assms obtain ds where s': "s' = s\<lparr>
      devices := ds,
      selectedDevice := (if selectNewDevice s p then Some p else selectedDevice s),
      selectedAppId := (if selectNewDevice s p then appOnDevice s p else selectedAppId s)\<rparr>"
    by (auto simp: register_device_def split: sum.splits)
  have sel: "selectNewDevice s p \<longleftrightarrow>
      selectedDevice s = None \<or> (\<exists>sd. selectedDevice s = Some sd \<and> \<not> isConnected sd) \<or>
      userPreferredDevice s = Some (title p)"
    by (auto simp: selectNewDevice_def split: option.splits)
  have app: "appOnDevice s p =
      (case find (\<lambda>c. device c = p \<and> Some (app (query c)) = userPreferredApp s) (clients s) of
         Some c \<Rightarrow>
           if client_id c \<noteq> [] then Some (client_id c)
           else map_option client_id (find (\<lambda>c. device c = p) (clients s))
       | None \<Rightarrow> map_option client_id (find (\<lambda>c. device c = p) (clients s)))"
    by (cases "find (\<lambda>c. device c = p \<and> Some (app (query c)) = userPreferredApp s) (clients s)")
       (simp_all add: appOnDevice_def)
  show ?thesis
    unfolding sel [symmetric] app [symmetric] by (simp add: s')
qed




text \<open>
  Where no client has the empty string for id, the app selected with the new device is
  the first client on it whose app is \<open>userPreferredApp\<close>, else the first client on it,
  else \<^verbatim>\<open>null\<close>.
\<close>

lemma register_device_selects_named:
  assumes "reducer s (REGISTER_DEVICE p) = Inr s'"
    and "\<forall>c\<in>set (clients s). client_id c \<noteq> []"
  shows "if selectedDevice s = None \<or>
            (\<exists>sd. selectedDevice s = Some sd \<and> \<not> isConnected sd) \<or>
            userPreferredDevice s = Some (title p)
         then selectedDevice s' = Some p \<and>
              selectedAppId s' =
                (case find (\<lambda>c. device c = p \<and> Some (app (query c)) = userPreferredApp s)
                        (clients s) of
                   Some c \<Rightarrow> Some (client_id c)
                 | None \<Rightarrow> map_option client_id (find (\<lambda>c. device c = p) (clients s)))
         else selectedDevice s' = selectedDevice s \<and> selectedAppId s' = selectedAppId s"
proof (cases "find (\<lambda>c. device c = p \<and> Some (app (query c)) = userPreferredApp s) (clients s)")
  case None
  with register_device_selects [OF assms(1)] show ?thesis by simp
next
  case (Some c)
  then have "c \<in> set (clients s)" by (auto simp: find_Some_iff)
  with assms(2) have "client_id c \<noteq> []" by blast
  with Some register_device_selects [OF assms(1)] show ?thesis by simp
qed


section \<open>A new client\<close>




section \<open>Selecting a plugin\<close>

text \<open>
  What \<^verbatim>\<open>SELECT_PLUGIN\<close> writes when a device resolves: every field as the payload gives it,
  the deep link payload included, which is stored as it came.
\<close>

lemma select_plugin_resolved:
  assumes "coalesce selDevice
             (map_option device (find (\<lambda>c. Defined (client_id c) = selAppId) (clients s)))
           = Some dev"
  shows "reducer s (SELECT_PLUGIN selPlugin selAppId deepLink selDevice) =
     Inr (s\<lparr>
       staticView := None,
       selectedDevice := Some dev,
       selectedAppId := nullable selAppId,
       selectedPlugin := Some selPlugin,
       userPreferredDevice :=
         (if canBeDefaultDevice dev then Some (title dev) else userPreferredDevice s),
       userPreferredApp :=
         (case find (\<lambda>c. Defined (client_id c) = selAppId) (clients s) of
            Some c \<Rightarrow> Some (app (query c)) | None \<Rightarrow> userPreferredApp s),
       userPreferredPlugin := Some selPlugin,
       deepLinkPayload := deepLink \<rparr>)"
  using assms by (simp add: select_plugin_def)

text \<open>
  C5. A \<^verbatim>\<open>SELECT_PLUGIN\<close> without \<^verbatim>\<open>deepLinkPayload\<close> leaves \<^verbatim>\<open>undefined\<close> in the state, not
  \<^verbatim>\<open>null\<close>; \<^verbatim>\<open>SET_STATIC_VIEW\<close>, given the same, stores \<^verbatim>\<open>null\<close>.
\<close>

theorem select_plugin_deepLinkPayload_absent:
  "reducer INITAL_STATE (SELECT_PLUGIN ''DeviceLogs'' Undefined Undefined (Defined phone)) =
     Inr (INITAL_STATE\<lparr>
       staticView := None,
       selectedDevice := Some phone,
       userPreferredDevice := Some ''Pixel'',
       userPreferredPlugin := Some ''DeviceLogs'',
       deepLinkPayload := Undefined \<rparr>) \<and>
   reducer INITAL_STATE (SET_STATIC_VIEW (Some ''Settings'') Undefined) =
     Inr (INITAL_STATE\<lparr>staticView := Some ''Settings'', deepLinkPayload := Null\<rparr>)"
  by (simp add: select_plugin_def canBeDefaultDevice_def DEFAULT_DEVICE_BLACKLIST_def
        INITAL_STATE_def DEFAULT_PLUGIN_def phone_def)

text \<open>
  C6. A \<^verbatim>\<open>SELECT_PLUGIN\<close> whose \<^verbatim>\<open>selectedDevice\<close> is missing or \<^verbatim>\<open>null\<close> and whose
  \<^verbatim>\<open>selectedAppId\<close> is the id of no client returns the state it was given.
\<close>

theorem select_plugin_unresolved:
  "selDevice = Undefined \<or> selDevice = Null \<Longrightarrow>
   \<forall>c\<in>set (clients s). Defined (client_id c) \<noteq> selAppId \<Longrightarrow>
   reducer s (SELECT_PLUGIN selPlugin selAppId deepLink selDevice) = Inr s"
proof -
  assume dev: "selDevice = Undefined \<or> selDevice = Null"
  assume "\<forall>c\<in>set (clients s). Defined (client_id c) \<noteq> selAppId"
  then have "find (\<lambda>c. Defined (client_id c) = selAppId) (clients s) = None"
    by (simp add: find_None_iff)
  with dev show ?thesis by (auto simp: select_plugin_def)
qed

text \<open>Scenario D, and the id of a client that is not there.\<close>

theorem select_plugin_unresolved_witness:
  "reducer INITAL_STATE (SELECT_PLUGIN ''X'' Null Undefined Null) = Inr INITAL_STATE \<and>
   reducer (new_client INITAL_STATE sample) (SELECT_PLUGIN ''X'' (Defined ''Other#emu1'') Undefined Undefined)
     = Inr (new_client INITAL_STATE sample)"
  using select_plugin_unresolved [of Null INITAL_STATE "Null" "''X''" Undefined]
    select_plugin_unresolved [of Undefined "new_client INITAL_STATE sample" "Defined ''Other#emu1''" "''X''" Undefined]
  by (simp add: INITAL_STATE_def new_client_def sample_def)

section \<open>The selected app is a known client\<close>

lemma appOnDevice_known:
  "appOnDevice s p = Some a \<Longrightarrow> \<exists>c\<in>set (clients s). Some (client_id c) = Some a"
  by (auto simp: appOnDevice_def Let_def find_Some_iff split: if_splits)

lemma register_device_known:
  assumes "register_device s p = Inr s'"
    and "selectedAppId s = None \<or> (\<exists>c\<in>set (clients s). Some (client_id c) = selectedAppId s)"
  shows "selectedAppId s' = None \<or> (\<exists>c\<in>set (clients s'). Some (client_id c) = selectedAppId s')"
proof -
  from assms(1) obtain ds where s': "s' = s\<lparr>
      devices := ds,
      selectedDevice := (if selectNewDevice s p then Some p else selectedDevice s),
      selectedAppId := (if selectNewDevice s p then appOnDevice s p else selectedAppId s)\<rparr>"
    by (auto simp: register_device_def split: sum.splits)
  show ?thesis
  proof (cases "selectNewDevice s p")
    case True
    then show ?thesis
      using appOnDevice_known [of s p] by (cases "appOnDevice s p") (auto simp: s')
  next
    case False
    with assms(2) show ?thesis by (simp add: s')
  qed
qed

lemma new_client_known:
  assumes "selectedAppId s = None \<or> (\<exists>c\<in>set (clients s). Some (client_id c) = selectedAppId s)"
  shows "selectedAppId (new_client s p) = None \<or>
    (\<exists>c\<in>set (clients (new_client s p)). Some (client_id c) = selectedAppId (new_client s p))"
  using assms by (auto simp: new_client_def)

lemma select_client_known:
  assumes "selectedAppId s = None \<or> (\<exists>c\<in>set (clients s). Some (client_id c) = selectedAppId s)"
  shows "selectedAppId (select_client s a) = None \<or>
    (\<exists>c\<in>set (clients (select_client s a)). Some (client_id c) = selectedAppId (select_client s a))"
proof (cases "find (\<lambda>c. client_id c = a) (clients s)")
  case None
  with assms show ?thesis by (simp add: select_client_def)
next
  case (Some c)
  then have "c \<in> set (clients s)" "client_id c = a"
    by (auto simp: find_Some_iff)
  with Some show ?thesis by (auto simp: select_client_def)
qed

lemma client_removed_known:
  assumes "selectedAppId s = None \<or> (\<exists>c\<in>set (clients s). Some (client_id c) = selectedAppId s)"
  shows "selectedAppId (client_removed s a) = None \<or>
    (\<exists>c\<in>set (clients (client_removed s a)). Some (client_id c) = selectedAppId (client_removed s a))"
  using assms by (auto simp: client_removed_def)

lemma select_plugin_known:
  assumes "selectedAppId s = None \<or> (\<exists>c\<in>set (clients s). Some (client_id c) = selectedAppId s)"
    and "known_app s (SELECT_PLUGIN pl aid dl dv)"
  shows "selectedAppId (select_plugin s pl aid dl dv) = None \<or>
    (\<exists>c\<in>set (clients (select_plugin s pl aid dl dv)).
       Some (client_id c) = selectedAppId (select_plugin s pl aid dl dv))"
  using assms by (cases aid) (auto simp: select_plugin_def Let_def split: option.splits)

lemma reducer_known:
  assumes "selectedAppId s = None \<or> (\<exists>c\<in>set (clients s). Some (client_id c) = selectedAppId s)"
    and "known_app s a" and "reducer s a = Inr s'"
  shows "selectedAppId s' = None \<or> (\<exists>c\<in>set (clients s'). Some (client_id c) = selectedAppId s')"
proof (cases a)
  case (REGISTER_DEVICE p)
  with assms register_device_known [of s p s'] show ?thesis by simp
next
  case (SELECT_PLUGIN pl aid dl dv)
  with assms select_plugin_known [of s pl aid dl dv] show ?thesis by auto
next
  case (NEW_CLIENT p)
  with assms new_client_known [of s p] show ?thesis by auto
next
  case (SELECT_CLIENT x)
  with assms select_client_known [of s x] show ?thesis by auto
next
  case (CLIENT_REMOVED x)
  with assms client_removed_known [of s x] show ?thesis by auto
next
  case (SET_PLUGIN_ENABLED x y)
  with assms show ?thesis
    by (auto simp: set_plugin_enabled_def Let_def split: option.splits property.splits)
next
  case (SET_PLUGIN_DISABLED x y)
  with assms show ?thesis
    by (auto simp: set_plugin_disabled_def Let_def split: option.splits property.splits)
qed (use assms in auto)

text \<open>
  C7 (as amended). In every state reached from the initial state through actions that
  name a known app, \<open>selectedAppId\<close> is \<^verbatim>\<open>null\<close> or the id of a client of \<open>clients\<close>; and
  every such action that returns preserves this, from any state.
\<close>

theorem selectedAppId_known:
  "(reachable_known s \<longrightarrow>
      selectedAppId s = None \<or> (\<exists>c\<in>set (clients s). Some (client_id c) = selectedAppId s)) \<and>
   ((selectedAppId s = None \<or> (\<exists>c\<in>set (clients s). Some (client_id c) = selectedAppId s)) \<and>
    known_app s a \<and> reducer s a = Inr s' \<longrightarrow>
      selectedAppId s' = None \<or> (\<exists>c\<in>set (clients s'). Some (client_id c) = selectedAppId s'))"
proof (intro conjI impI)
  assume "reachable_known s"
  then show "selectedAppId s = None \<or> (\<exists>c\<in>set (clients s). Some (client_id c) = selectedAppId s)"
  proof (induction rule: reachable_known.induct)
    case initial_known
    show ?case by (simp add: INITAL_STATE_def)
  next
    case (step_known s a s')
    then show ?case using reducer_known [of s a s'] by blast
  qed
next
  assume "(selectedAppId s = None \<or> (\<exists>c\<in>set (clients s). Some (client_id c) = selectedAppId s)) \<and>
    known_app s a \<and> reducer s a = Inr s'"
  then show "selectedAppId s' = None \<or> (\<exists>c\<in>set (clients s'). Some (client_id c) = selectedAppId s')"
    using reducer_known [of s a s'] by blast
qed

text \<open>
  The claim as first stated fails: a \<^verbatim>\<open>SELECT_PLUGIN\<close> that brings its own device stores
  whatever \<^verbatim>\<open>selectedAppId\<close> it carries.
\<close>

theorem selectedAppId_known_counterexample:
  "reachable (select_plugin INITAL_STATE ''X'' (Defined ''ghost'') Undefined (Defined phone)) \<and>
   selectedAppId (select_plugin INITAL_STATE ''X'' (Defined ''ghost'') Undefined (Defined phone))
     = Some ''ghost'' \<and>
   clients (select_plugin INITAL_STATE ''X'' (Defined ''ghost'') Undefined (Defined phone)) = []"
proof -
  have "reachable (select_plugin INITAL_STATE ''X'' (Defined ''ghost'') Undefined (Defined phone))"
    using reachable.step [OF reachable.initial,
      of "SELECT_PLUGIN ''X'' (Defined ''ghost'') Undefined (Defined phone)"] by simp
  then show ?thesis by (simp add: select_plugin_def INITAL_STATE_def)
qed

theorem selectedAppId_known_witness:
  "reachable_known (new_client INITAL_STATE sample) \<and>
   selectedAppId (new_client INITAL_STATE sample) = Some (client_id sample) \<and>
   clients (new_client INITAL_STATE sample) = [sample] \<and>
   reducer (new_client INITAL_STATE sample) (CLIENT_REMOVED ''Sample#emu1'') =
     Inr (INITAL_STATE\<lparr>selectedDevice := Some phone\<rparr>)"
proof -
  have r: "reachable_known (new_client INITAL_STATE sample)"
    using reachable_known.step_known [OF reachable_known.initial_known, of "NEW_CLIENT sample"]
    by simp
  have c: "reducer (new_client INITAL_STATE sample) (CLIENT_REMOVED ''Sample#emu1'') =
     Inr (INITAL_STATE\<lparr>selectedDevice := Some phone\<rparr>)"
    by (simp add: client_removed_def new_client_def selectNewClient_def INITAL_STATE_def
          sample_def)
  from selectedAppId_known [of "new_client INITAL_STATE sample" "CLIENT_REMOVED ''Sample#emu1''"
      "INITAL_STATE\<lparr>selectedDevice := Some phone\<rparr>"] r c
  show ?thesis
    by (simp add: new_client_def selectNewClient_def INITAL_STATE_def)
qed

section \<open>Enabled plugins\<close>

lemma indexOf_None: "indexOf xs x = None \<longleftrightarrow> x \<notin> set xs"
  by (auto simp: indexOf_def findIndex_None)

lemma getProperty_own: "m a = Some xs \<Longrightarrow> getProperty m a = Plugins xs"
  by (simp add: getProperty_def)

lemma getProperty_new:
  "m a = None \<Longrightarrow> a \<notin> set Object_prototype_keys \<Longrightarrow> getProperty m a = NoProperty"
  by (simp add: getProperty_def)

lemma getProperty_inherited:
  "m a = None \<Longrightarrow> a \<in> set Object_prototype_keys \<Longrightarrow> getProperty m a = Inherited"
  by (simp add: getProperty_def)

text \<open>Enabling, case by case.\<close>

lemma set_plugin_enabled_new:
  "enabledPlugins s a = None \<Longrightarrow> a \<notin> set Object_prototype_keys \<Longrightarrow>
   set_plugin_enabled s p a = Inr (s\<lparr>enabledPlugins := (enabledPlugins s)(a \<mapsto> [p])\<rparr>)"
  by (simp add: set_plugin_enabled_def withPluginList_def getProperty_new getProperty_own
        indexOf_def)

lemma set_plugin_enabled_present:
  "enabledPlugins s a = Some xs \<Longrightarrow> p \<in> set xs \<Longrightarrow> set_plugin_enabled s p a = Inr s"
proof -
  assume a: "enabledPlugins s a = Some xs" and "p \<in> set xs"
  then obtain i where "indexOf xs p = Some i"
    using indexOf_None [of xs p] by auto
  with a show ?thesis
    by (simp add: set_plugin_enabled_def withPluginList_def getProperty_own)
qed

lemma set_plugin_enabled_absent:
  "enabledPlugins s a = Some xs \<Longrightarrow> p \<notin> set xs \<Longrightarrow>
   set_plugin_enabled s p a = Inr (s\<lparr>enabledPlugins := (enabledPlugins s)(a \<mapsto> xs @ [p])\<rparr>)"
  by (simp add: set_plugin_enabled_def withPluginList_def getProperty_own
        indexOf_None [THEN iffD2])

lemma set_plugin_enabled_inherited:
  "enabledPlugins s a = None \<Longrightarrow> a \<in> set Object_prototype_keys \<Longrightarrow>
   set_plugin_enabled s p a = Inl (TypeError ''plugins.indexOf is not a function'')"
  by (simp add: set_plugin_enabled_def withPluginList_def getProperty_inherited)

text \<open>Disabling, case by case.\<close>

lemma set_plugin_disabled_new:
  "enabledPlugins s a = None \<Longrightarrow> a \<notin> set Object_prototype_keys \<Longrightarrow>
   set_plugin_disabled s p a = Inr (s\<lparr>enabledPlugins := (enabledPlugins s)(a \<mapsto> [])\<rparr>)"
  by (simp add: set_plugin_disabled_def withPluginList_def getProperty_new getProperty_own
        indexOf_def)

lemma set_plugin_disabled_absent:
  "enabledPlugins s a = Some xs \<Longrightarrow> p \<notin> set xs \<Longrightarrow> set_plugin_disabled s p a = Inr s"
  by (simp add: set_plugin_disabled_def withPluginList_def getProperty_own
        indexOf_None [THEN iffD2])

lemma set_plugin_disabled_present:
  "enabledPlugins s a = Some xs \<Longrightarrow> indexOf xs p = Some i \<Longrightarrow>
   set_plugin_disabled s p a =
     Inr (s\<lparr>enabledPlugins := (enabledPlugins s)(a \<mapsto> splice1 i xs)\<rparr>)"
  by (simp add: set_plugin_disabled_def withPluginList_def getProperty_own)

lemma set_plugin_disabled_inherited:
  "enabledPlugins s a = None \<Longrightarrow> a \<in> set Object_prototype_keys \<Longrightarrow>
   set_plugin_disabled s p a = Inl (TypeError ''plugins.indexOf is not a function'')"
  by (simp add: set_plugin_disabled_def withPluginList_def getProperty_inherited)

text \<open>
  C8 (as amended). \<^verbatim>\<open>SET_PLUGIN_DISABLED(p, a)\<close> returns the state it was given when \<open>a\<close> has
  a list that does not hold \<open>p\<close>; when \<open>a\<close> has no list and is not a name that objects
  inherit, it returns the state with the empty list for \<open>a\<close>.
  \<^verbatim>\<open>SET_DEVICE_PLUGIN_DISABLED(p)\<close> returns the state it was given when \<open>p\<close> is not in
  \<open>enabledDevicePlugins\<close>.
\<close>

theorem set_plugin_disabled_not_enabled:
  "(\<forall>xs. enabledPlugins s a = Some xs \<and> p \<notin> set xs \<longrightarrow>
      reducer s (SET_PLUGIN_DISABLED p a) = Inr s) \<and>
   (enabledPlugins s a = None \<and> a \<notin> set Object_prototype_keys \<longrightarrow>
      reducer s (SET_PLUGIN_DISABLED p a) =
        Inr (s\<lparr>enabledPlugins := (enabledPlugins s)(a \<mapsto> [])\<rparr>)) \<and>
   (p \<notin> enabledDevicePlugins s \<longrightarrow> reducer s (SET_DEVICE_PLUGIN_DISABLED p) = Inr s)"
proof (intro conjI allI impI)
  fix xs
  assume "enabledPlugins s a = Some xs \<and> p \<notin> set xs"
  then show "reducer s (SET_PLUGIN_DISABLED p a) = Inr s"
    by (simp add: set_plugin_disabled_absent)
next
  assume "enabledPlugins s a = None \<and> a \<notin> set Object_prototype_keys"
  then show "reducer s (SET_PLUGIN_DISABLED p a) =
        Inr (s\<lparr>enabledPlugins := (enabledPlugins s)(a \<mapsto> [])\<rparr>)"
    by (simp add: set_plugin_disabled_new)
next
  assume "p \<notin> enabledDevicePlugins s"
  then show "reducer s (SET_DEVICE_PLUGIN_DISABLED p) = Inr s"
    by simp
qed

text \<open>
  The claim as first stated fails for an app without a list: the next state has one.
\<close>

theorem set_plugin_disabled_not_enabled_counterexample:
  "enabledPlugins INITAL_STATE ''Sample'' = None \<and>
   reducer INITAL_STATE (SET_PLUGIN_DISABLED ''Layout'' ''Sample'') =
     Inr (INITAL_STATE\<lparr>enabledPlugins := [''Sample'' \<mapsto> []]\<rparr>) \<and>
   INITAL_STATE\<lparr>enabledPlugins := [''Sample'' \<mapsto> []]\<rparr> \<noteq> INITAL_STATE"
proof -
  have "enabledPlugins (INITAL_STATE\<lparr>enabledPlugins := [''Sample'' \<mapsto> []]\<rparr>) ''Sample''
        \<noteq> enabledPlugins INITAL_STATE ''Sample''"
    by (simp add: INITAL_STATE_def)
  then have "INITAL_STATE\<lparr>enabledPlugins := [''Sample'' \<mapsto> []]\<rparr> \<noteq> INITAL_STATE"
    by metis
  then show ?thesis
    by (simp add: set_plugin_disabled_def withPluginList_def getProperty_def indexOf_def
          Object_prototype_keys_def INITAL_STATE_def)
qed

theorem set_plugin_disabled_not_enabled_witness:
  "reducer (INITAL_STATE\<lparr>enabledPlugins := [''Sample'' \<mapsto> [''Network'']]\<rparr>)
      (SET_PLUGIN_DISABLED ''Layout'' ''Sample'') =
     Inr (INITAL_STATE\<lparr>enabledPlugins := [''Sample'' \<mapsto> [''Network'']]\<rparr>) \<and>
   reducer INITAL_STATE (SET_PLUGIN_DISABLED ''Layout'' ''Sample'') =
     Inr (INITAL_STATE\<lparr>enabledPlugins := [''Sample'' \<mapsto> []]\<rparr>) \<and>
   reducer INITAL_STATE (SET_DEVICE_PLUGIN_DISABLED ''Layout'') = Inr INITAL_STATE"
  using set_plugin_disabled_not_enabled
      [of "INITAL_STATE\<lparr>enabledPlugins := [''Sample'' \<mapsto> [''Network'']]\<rparr>" "''Sample''" "''Layout''"]
    set_plugin_disabled_not_enabled [of INITAL_STATE "''Sample''" "''Layout''"]
  by (simp add: INITAL_STATE_def Object_prototype_keys_def)

text \<open>
  Where the app owns a list or is not a name that objects inherit, enabling returns, and
  enabling again changes nothing: the list is the old one where it held the plugin, the
  old one with the plugin at the end where it did not.
\<close>

lemma set_plugin_enabled_twice:
  assumes "enabledPlugins s a \<noteq> None \<or> a \<notin> set Object_prototype_keys"
  shows "\<exists>s1 ys. reducer s (SET_PLUGIN_ENABLED p a) = Inr s1 \<and>
     reducer s1 (SET_PLUGIN_ENABLED p a) = Inr s1 \<and>
     enabledPlugins s1 a = Some ys \<and>
     ys = (case enabledPlugins s a of
             None \<Rightarrow> [p]
           | Some xs \<Rightarrow> if p \<in> set xs then xs else xs @ [p])"
proof (cases "enabledPlugins s a")
  case None
  with assms have a: "a \<notin> set Object_prototype_keys" by simp
  let ?s1 = "s\<lparr>enabledPlugins := (enabledPlugins s)(a \<mapsto> [p])\<rparr>"
  have "set_plugin_enabled s p a = Inr ?s1"
    using None a by (rule set_plugin_enabled_new)
  moreover have "set_plugin_enabled ?s1 p a = Inr ?s1"
    by (rule set_plugin_enabled_present [where xs = "[p]"]) simp_all
  ultimately show ?thesis using None by simp
next
  case (Some xs)
  show ?thesis
  proof (cases "p \<in> set xs")
    case True
    with Some have "set_plugin_enabled s p a = Inr s"
      by (rule set_plugin_enabled_present)
    with Some True show ?thesis by simp
  next
    case False
    let ?s1 = "s\<lparr>enabledPlugins := (enabledPlugins s)(a \<mapsto> xs @ [p])\<rparr>"
    have "set_plugin_enabled s p a = Inr ?s1"
      using Some False by (rule set_plugin_enabled_absent)
    moreover have "set_plugin_enabled ?s1 p a = Inr ?s1"
      by (rule set_plugin_enabled_present [where xs = "xs @ [p]"]) simp_all
    ultimately show ?thesis using Some False by simp
  qed
qed

text \<open>The lists of plugins of the states the store reaches hold no plugin twice.\<close>

lemma splice1_distinct: "distinct xs \<Longrightarrow> distinct (splice1 i xs)"
  using set_take_disj_set_drop_if_distinct [of xs i "Suc i"]
  by (simp add: splice1_def)

lemma set_plugin_enabled_distinct:
  assumes "set_plugin_enabled s p a = Inr s'"
    and "\<forall>k xs. enabledPlugins s k = Some xs \<longrightarrow> distinct xs"
  shows "\<forall>k xs. enabledPlugins s' k = Some xs \<longrightarrow> distinct xs"
proof (cases "enabledPlugins s a")
  case None
  show ?thesis
  proof (cases "a \<in> set Object_prototype_keys")
    case True
    with None assms(1) show ?thesis by (simp add: set_plugin_enabled_inherited)
  next
    case False
    with None assms show ?thesis by (auto simp: set_plugin_enabled_new split: if_splits)
  qed
next
  case (Some xs)
  with assms(2) have "distinct xs" by blast
  with Some assms show ?thesis
    by (cases "p \<in> set xs")
       (auto simp: set_plugin_enabled_present set_plugin_enabled_absent split: if_splits)
qed

lemma set_plugin_disabled_distinct:
  assumes "set_plugin_disabled s p a = Inr s'"
    and "\<forall>k xs. enabledPlugins s k = Some xs \<longrightarrow> distinct xs"
  shows "\<forall>k xs. enabledPlugins s' k = Some xs \<longrightarrow> distinct xs"
proof (cases "enabledPlugins s a")
  case None
  show ?thesis
  proof (cases "a \<in> set Object_prototype_keys")
    case True
    with None assms(1) show ?thesis by (simp add: set_plugin_disabled_inherited)
  next
    case False
    with None assms show ?thesis by (auto simp: set_plugin_disabled_new split: if_splits)
  qed
next
  case (Some xs)
  with assms(2) have d: "distinct xs" by blast
  show ?thesis
  proof (cases "indexOf xs p")
    case None
    then have "p \<notin> set xs" by (simp add: indexOf_None)
    with Some assms show ?thesis by (simp add: set_plugin_disabled_absent)
  next
    case (Some i)
    with \<open>enabledPlugins s a = Some xs\<close> assms d show ?thesis
      by (auto simp: set_plugin_disabled_present splice1_distinct split: if_splits)
  qed
qed

lemma reducer_enabledPlugins_distinct:
  assumes "reducer s a = Inr s'" and "\<forall>k xs. enabledPlugins s k = Some xs \<longrightarrow> distinct xs"
  shows "\<forall>k xs. enabledPlugins s' k = Some xs \<longrightarrow> distinct xs"
proof (cases a)
  case (SET_PLUGIN_ENABLED p k)
  with assms set_plugin_enabled_distinct [of s p k s'] show ?thesis by simp
next
  case (SET_PLUGIN_DISABLED p k)
  with assms set_plugin_disabled_distinct [of s p k s'] show ?thesis by simp
qed (use assms in \<open>auto simp: register_device_def select_plugin_def new_client_def
       select_client_def client_removed_def Let_def split: sum.splits option.splits\<close>)

lemma reachable_enabledPlugins_distinct:
  "reachable s \<Longrightarrow> \<forall>k xs. enabledPlugins s k = Some xs \<longrightarrow> distinct xs"
proof (induction rule: reachable.induct)
  case initial
  show ?case by (simp add: INITAL_STATE_def)
next
  case (step s a s')
  then show ?case using reducer_enabledPlugins_distinct [of s a s'] by blast
qed

lemma distinct_count_list: "distinct xs \<Longrightarrow> count_list xs x \<le> 1"
  by (induction xs) auto

text \<open>So in the states the store reaches, a plugin just enabled is in the list once.\<close>

lemma set_plugin_enabled_once:
  assumes "enabledPlugins s a \<noteq> None \<or> a \<notin> set Object_prototype_keys"
    and "reachable s" and "reducer s (SET_PLUGIN_ENABLED p a) = Inr s1"
  shows "\<exists>ys. enabledPlugins s1 a = Some ys \<and> count_list ys p = 1"
proof -
  from reachable.step [OF assms(2,3)] have "reachable s1" .
  from set_plugin_enabled_twice [OF assms(1), of p] assms(3)
  obtain ys where ys: "enabledPlugins s1 a = Some ys"
    and p: "ys = (case enabledPlugins s a of None \<Rightarrow> [p]
                  | Some xs \<Rightarrow> if p \<in> set xs then xs else xs @ [p])"
    by auto
  from p have "p \<in> set ys" by (auto split: option.splits)
  then have "count_list ys p \<noteq> 0" by (simp add: count_list_0_iff)
  moreover from reachable_enabledPlugins_distinct [OF \<open>reachable s1\<close>] ys
  have "distinct ys" by blast
  then have "count_list ys p \<le> 1" by (rule distinct_count_list)
  ultimately show ?thesis using ys by auto
qed

text \<open>
  C9. Enabling a plugin for an app named as a property that objects inherit, in a state
  where the app has no list: the read gives the inherited function, no list is made, and
  the call of \<^verbatim>\<open>indexOf\<close> on it throws. There is no next state, and no list that holds the
  plugin. \<^verbatim>\<open>SET_PLUGIN_DISABLED\<close> throws in the same way.
\<close>

theorem set_plugin_enabled_inherited_key:
  "enabledPlugins INITAL_STATE ''constructor'' = None \<and>
   reducer INITAL_STATE (SET_PLUGIN_ENABLED ''Layout'' ''constructor'') =
     Inl (TypeError ''plugins.indexOf is not a function'') \<and>
   reducer INITAL_STATE (SET_PLUGIN_DISABLED ''Layout'' ''constructor'') =
     Inl (TypeError ''plugins.indexOf is not a function'')"
  by (simp add: set_plugin_enabled_def set_plugin_disabled_def withPluginList_def
        getProperty_def Object_prototype_keys_def INITAL_STATE_def)

section \<open>The metro device and the active device\<close>

text \<open>
  C10. The metro device is the first device of \<open>devices\<close> whose \<open>os\<close> is \<^verbatim>\<open>'Metro'\<close> and
  that is not archived, \<^verbatim>\<open>null\<close> when there is none. The active device is the selected
  device when that is not the metro device; when it is, the device of the active client if
  there is one, the selected device if not.
\<close>

theorem metro_and_active_device:
  "(getMetroDevice s = None \<longleftrightarrow>
      (\<forall>d\<in>set (devices s). \<not> (os d = ''Metro'' \<and> \<not> isArchived d))) \<and>
   (\<forall>m. getMetroDevice s = Some m \<longleftrightarrow>
      (\<exists>i<length (devices s). devices s ! i = m \<and> os m = ''Metro'' \<and> \<not> isArchived m \<and>
         (\<forall>j<i. \<not> (os (devices s ! j) = ''Metro'' \<and> \<not> isArchived (devices s ! j))))) \<and>
   (selectedDevice s \<noteq> getMetroDevice s \<longrightarrow> getActiveDevice s = selectedDevice s) \<and>
   (selectedDevice s = getMetroDevice s \<longrightarrow>
      (\<forall>c. getActiveClient s = Some c \<longrightarrow> getActiveDevice s = Some (device c)) \<and>
      (getActiveClient s = None \<longrightarrow> getActiveDevice s = selectedDevice s))"
proof (intro conjI allI impI)
  show "getMetroDevice s = None \<longleftrightarrow>
      (\<forall>d\<in>set (devices s). \<not> (os d = ''Metro'' \<and> \<not> isArchived d))"
    by (auto simp: getMetroDevice_def find_None_iff)
next
  fix m
  show "getMetroDevice s = Some m \<longleftrightarrow>
      (\<exists>i<length (devices s). devices s ! i = m \<and> os m = ''Metro'' \<and> \<not> isArchived m \<and>
         (\<forall>j<i. \<not> (os (devices s ! j) = ''Metro'' \<and> \<not> isArchived (devices s ! j))))"
    unfolding getMetroDevice_def find_Some_iff by blast
next
  assume "selectedDevice s \<noteq> getMetroDevice s"
  then show "getActiveDevice s = selectedDevice s"
    by (simp add: getActiveDevice_def)
next
  fix c
  assume "selectedDevice s = getMetroDevice s" "getActiveClient s = Some c"
  then show "getActiveDevice s = Some (device c)"
    by (simp add: getActiveDevice_def)
next
  assume "selectedDevice s = getMetroDevice s" "getActiveClient s = None"
  then show "getActiveDevice s = selectedDevice s"
    by (simp add: getActiveDevice_def)
qed

text \<open>Scenario E, and a metro device that gives way to the device of the selected app.\<close>

theorem metro_and_active_device_witness:
  "getMetroDevice INITAL_STATE = None \<and>
   getMetroDevice (INITAL_STATE\<lparr>devices := [phone, metro]\<rparr>) = Some metro \<and>
   getActiveDevice
     (INITAL_STATE\<lparr>devices := [phone, metro], selectedDevice := Some phone\<rparr>) = Some phone \<and>
   getActiveDevice
     (INITAL_STATE\<lparr>devices := [phone, metro], selectedDevice := Some metro, clients := [sample],
        selectedAppId := Some ''Sample#emu1''\<rparr>) = Some phone \<and>
   getActiveDevice
     (INITAL_STATE\<lparr>devices := [phone, metro], selectedDevice := Some metro\<rparr>) = Some metro"
  using metro_and_active_device [of INITAL_STATE]
    metro_and_active_device [of "INITAL_STATE\<lparr>devices := [phone, metro]\<rparr>"]
    metro_and_active_device [of "INITAL_STATE\<lparr>devices := [phone, metro], selectedDevice := Some phone\<rparr>"]
    metro_and_active_device [of "INITAL_STATE\<lparr>devices := [phone, metro], selectedDevice := Some metro, clients := [sample],
        selectedAppId := Some ''Sample#emu1''\<rparr>"]
  by (simp add: getMetroDevice_def getActiveDevice_def getActiveClient_def INITAL_STATE_def
        phone_def metro_def sample_def)

end
